theory Spec2Isabelle
  imports Complex_Main "HOL-Library.Word"
begin

section \<open>Edge (SubdomainTools/BoundaryFinder.h)\<close>

text \<open>
  \<^verbatim>\<open>struct Edge\<close> holds two \<^verbatim>\<open>unsigned int\<close> node IDs, here 32-bit words.
  The two-argument constructor stores the smaller ID first. \<^verbatim>\<open>operator==\<close> and
  \<^verbatim>\<open>operator<\<close> compare the stored fields; \<^verbatim>\<open>operator<\<close> is the comparator of
  \<^verbatim>\<open>std::map<Edge, int>\<close>, under which two keys are the same key when neither is
  less than the other.
\<close>

record Edge =
  n1 :: "32 word"
  n2 :: "32 word"

definition Edge_default :: Edge where
  "Edge_default = \<lparr>n1 = 0, n2 = 0\<rparr>"

definition Edge_ctor :: "32 word \<Rightarrow> 32 word \<Rightarrow> Edge" where
  "Edge_ctor first second =
     (if first < second then \<lparr>n1 = first, n2 = second\<rparr>
      else \<lparr>n1 = second, n2 = first\<rparr>)"

definition Edge_eq :: "Edge \<Rightarrow> Edge \<Rightarrow> bool" where
  "Edge_eq e e1 = (Edge.n1 e = Edge.n1 e1 \<and> Edge.n2 e = Edge.n2 e1)"

definition Edge_less :: "Edge \<Rightarrow> Edge \<Rightarrow> bool" where
  "Edge_less e e1 =
     (if Edge.n1 e = Edge.n1 e1 then Edge.n2 e < Edge.n2 e1
      else Edge.n1 e < Edge.n1 e1)"

text \<open>Two keys of a \<^verbatim>\<open>std::map\<close> are equivalent when neither orders before the other.\<close>

definition Edge_same_key :: "Edge \<Rightarrow> Edge \<Rightarrow> bool" where
  "Edge_same_key e e1 = (\<not> Edge_less e e1 \<and> \<not> Edge_less e1 e)"


section \<open>CreationSelectionLayer (Layers/SelectionLayers/CreationSelectionLayer.cpp)\<close>

text \<open>
  The layer keeps the current selection, an undo stack and a redo stack of selection
  states, the active tool, the circle tool and the flag \<^verbatim>\<open>mousePressed\<close>. The OpenGL
  members, the camera, the terrain layer, \<^verbatim>\<open>LoadDataToGPU\<close> and the emitted Qt
  signals are left out: none of them writes one of the members kept here.

  An \<^verbatim>\<open>Element*\<close> held in a selection is an address; \<^verbatim>\<open>std::sort\<close> orders the
  pointers by address.
\<close>

type_synonym Element_ptr = nat

text \<open>
  Modelled from the spec: \<^verbatim>\<open>Layers/Actions/ElementState.h\<close> is not among the
  sources. A selection state holds the list of selected elements, which
  \<^verbatim>\<open>GetState()\<close> returns; the default constructor makes the empty selection and the
  constructor from a list stores that list. An \<^verbatim>\<open>ElementState*\<close> is represented by
  the state it points to, a null pointer by \<open>None\<close>.
\<close>

datatype ElementState = ElementState (GetState: "Element_ptr list")

text \<open>
  Modelled from the spec: the class \<^verbatim>\<open>CircleTool\<close> is not among the sources. It
  owns the interaction state of the circle (center, radius point) and runs the query
  when the circle is finished. It is represented by the sequence of interaction calls it
  has received from the layer; the list that \<^verbatim>\<open>GetSelectedElements()\<close> returns is an
  argument of \<open>CircleToolFinishedSearching\<close>.
\<close>

datatype CircleTool_call = SetCenter int int | SetRadiusPoint int int | CircleFinished

record CircleTool =
  calls :: "CircleTool_call list"

definition CircleTool_ctor :: CircleTool where
  "CircleTool_ctor = \<lparr>calls = []\<rparr>"

text \<open>
  The macros \<^verbatim>\<open>CIRCLETOOLINDEX\<close> and \<^verbatim>\<open>AVAILABLETOOLS\<close> come from a header that is not
  among the sources; they are parameters of the operations that read them. (The comment
  of \<^verbatim>\<open>UseTool\<close> numbers the circle tool 1, the value the constructor gives
  \<^verbatim>\<open>activeTool\<close>.)
\<close>

record tool_macros =
  CIRCLETOOLINDEX :: int
  AVAILABLETOOLS :: int

record CreationSelectionLayer =
  activeTool :: int
  circleTool :: "CircleTool option"
  selectedState :: "ElementState option"
  undoStack :: "ElementState option list"
  redoStack :: "ElementState option list"
  mousePressed :: bool

text \<open>
  A \<^verbatim>\<open>std::stack\<close> is a list with its top at the head. The \<^verbatim>\<open>int\<close> members and
  arguments (tool numbers, pixel coordinates) are only stored, compared and passed on, so
  they are integers without a bound.

  \<^verbatim>\<open>circleTool->f(...)\<close> on a non-null tool: the tool receives the call.
\<close>

definition tool_receives :: "CircleTool_call \<Rightarrow> CreationSelectionLayer \<Rightarrow> CreationSelectionLayer" where
  "tool_receives c s =
     (case circleTool s of
        None \<Rightarrow> s
      | Some t \<Rightarrow> s\<lparr>circleTool := Some (t\<lparr>calls := calls t @ [c]\<rparr>)\<rparr>)"

definition CreateCircleTool :: "CreationSelectionLayer \<Rightarrow> CreationSelectionLayer" where
  "CreateCircleTool s =
     (if circleTool s = None then s\<lparr>circleTool := Some CircleTool_ctor\<rparr> else s)"

definition CreationSelectionLayer_ctor :: CreationSelectionLayer where
  "CreationSelectionLayer_ctor =
     CreateCircleTool
       \<lparr>activeTool = 1, circleTool = None, selectedState = None,
        undoStack = [], redoStack = [], mousePressed = False\<rparr>"

definition GetNumElementsSelected :: "CreationSelectionLayer \<Rightarrow> nat" where
  "GetNumElementsSelected s =
     (case selectedState s of Some st \<Rightarrow> length (GetState st) | None \<Rightarrow> 0)"

definition UseTool :: "tool_macros \<Rightarrow> int \<Rightarrow> CreationSelectionLayer \<Rightarrow> CreationSelectionLayer" where
  "UseTool m toolID s =
     (if toolID \<ge> 0 \<and> toolID \<le> AVAILABLETOOLS m then
        (let s1 = s\<lparr>activeTool := toolID\<rparr>
         in if activeTool s1 = CIRCLETOOLINDEX m \<and> circleTool s1 = None
            then s1\<lparr>circleTool := Some CircleTool_ctor\<rparr> else s1)
      else s)"

definition MouseClick :: "tool_macros \<Rightarrow> int \<Rightarrow> int \<Rightarrow> CreationSelectionLayer \<Rightarrow> CreationSelectionLayer" where
  "MouseClick m x y s =
     (let s1 = s\<lparr>mousePressed := True\<rparr>
      in if activeTool s1 = CIRCLETOOLINDEX m \<and> circleTool s1 \<noteq> None
         then tool_receives (SetCenter x y) s1 else s1)"

definition MouseMove :: "tool_macros \<Rightarrow> int \<Rightarrow> int \<Rightarrow> CreationSelectionLayer \<Rightarrow> CreationSelectionLayer" where
  "MouseMove m x y s =
     (if mousePressed s \<and> activeTool s = CIRCLETOOLINDEX m \<and> circleTool s \<noteq> None
      then tool_receives (SetRadiusPoint x y) s else s)"

definition MouseRelease :: "tool_macros \<Rightarrow> int \<Rightarrow> int \<Rightarrow> CreationSelectionLayer \<Rightarrow> CreationSelectionLayer" where
  "MouseRelease m x y s =
     (let s1 = s\<lparr>mousePressed := False\<rparr>
      in if activeTool s1 = CIRCLETOOLINDEX m \<and> circleTool s1 \<noteq> None
         then tool_receives CircleFinished s1 else s1)"

definition Undo :: "CreationSelectionLayer \<Rightarrow> CreationSelectionLayer" where
  "Undo s =
     (if undoStack s \<noteq> [] \<and> selectedState s \<noteq> None then
        (let s1 = s\<lparr>redoStack := selectedState s # redoStack s\<rparr>;
             s2 = s1\<lparr>selectedState := hd (undoStack s1)\<rparr>
         in s2\<lparr>undoStack := tl (undoStack s2)\<rparr>)
      else s)"

definition Redo :: "CreationSelectionLayer \<Rightarrow> CreationSelectionLayer" where
  "Redo s =
     (if redoStack s \<noteq> [] \<and> selectedState s \<noteq> None then
        (let s1 = s\<lparr>undoStack := selectedState s # undoStack s\<rparr>;
             s2 = s1\<lparr>selectedState := hd (redoStack s1)\<rparr>
         in s2\<lparr>redoStack := tl (redoStack s2)\<rparr>)
      else s)"

text \<open>The loop of \<^verbatim>\<open>ClearUndoStack\<close> and \<^verbatim>\<open>ClearRedoStack\<close>: pop until empty.\<close>

fun pop_all :: "ElementState option list \<Rightarrow> ElementState option list" where
  "pop_all [] = []"
| "pop_all (st # rest) = pop_all rest"

definition ClearUndoStack :: "CreationSelectionLayer \<Rightarrow> CreationSelectionLayer" where
  "ClearUndoStack s = s\<lparr>undoStack := pop_all (undoStack s)\<rparr>"

definition ClearRedoStack :: "CreationSelectionLayer \<Rightarrow> CreationSelectionLayer" where
  "ClearRedoStack s = s\<lparr>redoStack := pop_all (redoStack s)\<rparr>"

text \<open>
  The slot called when the circle tool has finished searching; \<open>found\<close> is the list
  that \<^verbatim>\<open>circleTool->GetSelectedElements()\<close> returns. \<^verbatim>\<open>std::unique\<close> followed by
  \<^verbatim>\<open>resize\<close> keeps the first element of every run of equal neighbours.
\<close>

definition CircleToolFinishedSearching ::
  "Element_ptr list \<Rightarrow> CreationSelectionLayer \<Rightarrow> CreationSelectionLayer" where
  "CircleToolFinishedSearching found s =
     (let s1 = (if selectedState s = None
                then s\<lparr>selectedState := Some (ElementState [])\<rparr> else s)
      in if circleTool s1 \<noteq> None then
           (let newList = found;
                currList = (case selectedState s1 of Some st \<Rightarrow> GetState st | None \<Rightarrow> [])
            in if length newList > 0 then
                 (let s2 =
                    (if length currList > 0 then
                       (let newList1 = newList @ currList;
                            s' = s1\<lparr>undoStack := selectedState s1 # undoStack s1\<rparr>;
                            newList2 = sort newList1;
                            newList3 = remdups_adj newList2
                        in s'\<lparr>selectedState := Some (ElementState newList3)\<rparr>)
                     else
                       (let s' = s1\<lparr>undoStack := selectedState s1 # undoStack s1\<rparr>
                        in s'\<lparr>selectedState := Some (ElementState newList)\<rparr>))
                  in ClearRedoStack s2)
               else s1)
         else s1)"

text \<open>The elements currently selected: none while \<^verbatim>\<open>selectedState\<close> is null.\<close>

definition current_selection :: "CreationSelectionLayer \<Rightarrow> Element_ptr list" where
  "current_selection s =
     (case selectedState s of Some st \<Rightarrow> GetState st | None \<Rightarrow> [])"

text \<open>The calls the circle tool has received so far.\<close>

definition tool_calls :: "CreationSelectionLayer \<Rightarrow> CircleTool_call list" where
  "tool_calls s = (case circleTool s of Some t \<Rightarrow> calls t | None \<Rightarrow> [])"

definition circle_active :: "tool_macros \<Rightarrow> CreationSelectionLayer \<Rightarrow> bool" where
  "circle_active m s = (activeTool s = CIRCLETOOLINDEX m \<and> circleTool s \<noteq> None)"

text \<open>
  The operations a caller can invoke on a layer, as events, and the states a layer can
  be in: those a sequence of events produces from the constructed layer.
\<close>

datatype event =
    MouseClickEv int int
  | MouseMoveEv int int
  | MouseReleaseEv int int
  | UseToolEv int
  | UndoEv
  | RedoEv
  | FinishedSearchingEv "Element_ptr list"

fun step :: "tool_macros \<Rightarrow> CreationSelectionLayer \<Rightarrow> event \<Rightarrow> CreationSelectionLayer" where
  "step m s (MouseClickEv x y) = MouseClick m x y s"
| "step m s (MouseMoveEv x y) = MouseMove m x y s"
| "step m s (MouseReleaseEv x y) = MouseRelease m x y s"
| "step m s (UseToolEv toolID) = UseTool m toolID s"
| "step m s UndoEv = Undo s"
| "step m s RedoEv = Redo s"
| "step m s (FinishedSearchingEv found) = CircleToolFinishedSearching found s"

definition run :: "tool_macros \<Rightarrow> CreationSelectionLayer \<Rightarrow> event list \<Rightarrow> CreationSelectionLayer" where
  "run m s es = foldl (step m) s es"

definition reachable :: "tool_macros \<Rightarrow> CreationSelectionLayer \<Rightarrow> bool" where
  "reachable m s = (\<exists>es. s = run m CreationSelectionLayer_ctor es)"

text \<open>
  The interaction as the events tell it: the button is held after a click until the
  next release.
\<close>

fun button_held :: "bool \<Rightarrow> event list \<Rightarrow> bool" where
  "button_held h [] = h"
| "button_held h (MouseClickEv x y # es) = button_held True es"
| "button_held h (MouseReleaseEv x y # es) = button_held False es"
| "button_held h (e # es) = button_held h es"

text \<open>
  What the circle tool is to receive on an event: the center on a click, a radius point
  on a move while the button is held, the end of the circle on a release, each only
  while the circle tool is the active tool; nothing on any other event.
\<close>

fun protocol_forwards :: "bool \<Rightarrow> bool \<Rightarrow> event \<Rightarrow> CircleTool_call list" where
  "protocol_forwards held active (MouseClickEv x y) = (if active then [SetCenter x y] else [])"
| "protocol_forwards held active (MouseMoveEv x y) =
     (if held \<and> active then [SetRadiusPoint x y] else [])"
| "protocol_forwards held active (MouseReleaseEv x y) =
     (if active then [CircleFinished] else [])"
| "protocol_forwards held active e = []"

text \<open>No null pointer lies on the undo stack or on the redo stack.\<close>

definition stacks_non_null :: "CreationSelectionLayer \<Rightarrow> bool" where
  "stacks_non_null s = (None \<notin> set (undoStack s) \<and> None \<notin> set (redoStack s))"

definition exMacros :: tool_macros where
  "exMacros = \<lparr>CIRCLETOOLINDEX = 1, AVAILABLETOOLS = 1\<rparr>"

text \<open>An example layer: constructed, then a first circle search that found two elements.\<close>

definition exLayer :: CreationSelectionLayer where
  "exLayer = run exMacros CreationSelectionLayer_ctor [FinishedSearchingEv [30, 10]]"


section \<open>Mesh data and quadtree cells\<close>

text \<open>
  \<^verbatim>\<open>float\<close> values are modelled as real numbers: the arithmetic of the model is
  exact, and it agrees with the machine arithmetic wherever every intermediate value is
  exactly representable (the concrete inputs used below are small dyadic fractions).
\<close>

text \<open>A C array of four entries, \<^verbatim>\<open>T a[4]\<close>, read at the indices 0 to 3.\<close>

datatype 'a array4 = Array4 'a 'a 'a 'a

fun at4 :: "'a array4 \<Rightarrow> nat \<Rightarrow> 'a" where
  "at4 (Array4 a0 a1 a2 a3) i =
     (if i = 0 then a0 else if i = 1 then a1 else if i = 2 then a2 else a3)"

text \<open>
  Modelled from the spec: \<^verbatim>\<open>adcData.h\<close>, which declares \<^verbatim>\<open>Node\<close> and
  \<^verbatim>\<open>Element\<close>, is not among the sources. A Node has an integer identity and a
  normalized position; an Element has an integer identity and exactly three Node
  references \<^verbatim>\<open>n1\<close>, \<^verbatim>\<open>n2\<close>, \<^verbatim>\<open>n3\<close>. The field names are the ones
  \<^verbatim>\<open>ClickSearch.cpp\<close> and \<^verbatim>\<open>CreationSelectionLayer.cpp\<close> read. A \<^verbatim>\<open>Node*\<close> or
  \<^verbatim>\<open>Element*\<close> of the search code is represented by the record it points to, a
  null pointer by \<open>None\<close>.
\<close>

record Node =
  nodeNumber :: nat
  normX :: real
  normY :: real

record Element =
  elementNumber :: nat
  n1 :: Node
  n2 :: Node
  n3 :: Node

text \<open>
  Modelled from the spec: \<^verbatim>\<open>QuadtreeData.h\<close>, which declares \<^verbatim>\<open>leaf\<close> and
  \<^verbatim>\<open>branch\<close>, is not among the sources. A leaf is a cell with bounds (left, right,
  bottom, top) holding a list of Node references and a list of Element references; a
  branch is a cell with bounds and four child slots. As \<^verbatim>\<open>ClickSearch.cpp\<close> reads
  them, the bounds are \<^verbatim>\<open>bounds[0..3]\<close> and slot \<open>i\<close> has a branch pointer
  \<^verbatim>\<open>branches[i]\<close> and a leaf pointer \<^verbatim>\<open>leaves[i]\<close>, each of which may be null.
\<close>

record leaf =
  bounds :: "real array4"
  nodes :: "Node list"
  elements :: "Element list"

datatype branch =
  Branch (bounds: "real array4")
         (branches: "branch option array4")
         (leaves: "leaf option array4")

text \<open>The leaves of a tree: those in a slot of the root or of a branch below it.\<close>

inductive leaf_in :: "leaf \<Rightarrow> branch \<Rightarrow> bool" where
  here: "i < 4 \<Longrightarrow> at4 (leaves b) i = Some l \<Longrightarrow> leaf_in l b"
| below: "i < 4 \<Longrightarrow> at4 (branches b) i = Some b' \<Longrightarrow> leaf_in l b' \<Longrightarrow> leaf_in l b"


section \<open>ClickSearch (Quadtree/SearchTools/ClickSearch.cpp)\<close>

text \<open>
  The searcher object keeps the query point in its members \<^verbatim>\<open>x\<close> and \<^verbatim>\<open>y\<close>.
  \<^verbatim>\<open>FindNode\<close> and \<^verbatim>\<open>FindElement\<close> write them and then search; they return the
  result together with the updated object. The tree is only read, so it is an argument
  and not part of the returned state.
\<close>

record ClickSearch =
  x :: real
  y :: real

definition ClickSearch_ctor :: ClickSearch where
  "ClickSearch_ctor = \<lparr>x = 0, y = 0\<rparr>"

definition PointIsInsideSquare_branch :: "ClickSearch \<Rightarrow> branch \<Rightarrow> bool" where
  "PointIsInsideSquare_branch cs currBranch =
     (if x cs \<ge> at4 (branch.bounds currBranch) 0 \<and>
         x cs \<le> at4 (branch.bounds currBranch) 1 \<and>
         y cs \<ge> at4 (branch.bounds currBranch) 2 \<and>
         y cs \<le> at4 (branch.bounds currBranch) 3
      then True else False)"

definition PointIsInsideSquare_leaf :: "ClickSearch \<Rightarrow> leaf \<Rightarrow> bool" where
  "PointIsInsideSquare_leaf cs currLeaf =
     (if x cs \<ge> at4 (leaf.bounds currLeaf) 0 \<and>
         x cs \<le> at4 (leaf.bounds currLeaf) 1 \<and>
         y cs \<ge> at4 (leaf.bounds currLeaf) 2 \<and>
         y cs \<le> at4 (leaf.bounds currLeaf) 3
      then True else False)"

definition PointIsInsideElement :: "ClickSearch \<Rightarrow> Element \<Rightarrow> bool" where
  "PointIsInsideElement cs currElement =
     (let p1 = n1 currElement;
          p2 = n2 currElement;
          p3 = n3 currElement;
          denominator = (normY p2 - normY p3) * (normX p1 - normX p3)
                        + (normX p3 - normX p2) * (normY p1 - normY p3);
          a = ((normY p2 - normY p3) * (x cs - normX p3)
               + (normX p3 - normX p2) * (y cs - normY p3)) / denominator;
          b = ((normY p3 - normY p1) * (x cs - normX p3)
               + (normX p1 - normX p3) * (y cs - normX p3)) / denominator;
          c = 1 - a - b
      in a > 0 \<and> b > 0 \<and> c > 0)"

definition Distance :: "ClickSearch \<Rightarrow> Node \<Rightarrow> real" where
  "Distance cs currNode = sqrt ((x cs - normX currNode)\<^sup>2 + (y cs - normY currNode)\<^sup>2)"

text \<open>
  The scan of a leaf's nodes. The loop variables are \<^verbatim>\<open>itStarted\<close>,
  \<^verbatim>\<open>currClosest\<close> and \<^verbatim>\<open>recordDistance\<close>; \<^verbatim>\<open>recordDistance\<close> is assigned at the
  first node only.
\<close>

fun SearchNodes_leaf_loop ::
  "ClickSearch \<Rightarrow> Node list \<Rightarrow> bool \<Rightarrow> Node option \<Rightarrow> real \<Rightarrow> Node option" where
  "SearchNodes_leaf_loop cs [] itStarted currClosest recordDistance = currClosest"
| "SearchNodes_leaf_loop cs (n # it) itStarted currClosest recordDistance =
     (if \<not> itStarted then SearchNodes_leaf_loop cs it True (Some n) (Distance cs n)
      else if Distance cs n < recordDistance
           then SearchNodes_leaf_loop cs it itStarted (Some n) recordDistance
           else SearchNodes_leaf_loop cs it itStarted currClosest recordDistance)"

definition SearchNodes_leaf :: "ClickSearch \<Rightarrow> leaf \<Rightarrow> Node option" where
  "SearchNodes_leaf cs currLeaf =
     (if PointIsInsideSquare_leaf cs currLeaf
      then SearchNodes_leaf_loop cs (nodes currLeaf) False None 0
      else None)"

fun SearchElements_leaf_loop :: "ClickSearch \<Rightarrow> Element list \<Rightarrow> Element option" where
  "SearchElements_leaf_loop cs [] = None"
| "SearchElements_leaf_loop cs (e # it) =
     (if PointIsInsideElement cs e then Some e else SearchElements_leaf_loop cs it)"

definition SearchElements_leaf :: "ClickSearch \<Rightarrow> leaf \<Rightarrow> Element option" where
  "SearchElements_leaf cs currLeaf =
     (if PointIsInsideSquare_leaf cs currLeaf
      then SearchElements_leaf_loop cs (elements currLeaf)
      else None)"

text \<open>
  The search of a branch: when the point is inside its bounds, the slots 0 to 3 are
  visited in order, the branch pointer of a slot before its leaf pointer, and the first
  non-null result is returned.
\<close>

function SearchNodes_branch :: "ClickSearch \<Rightarrow> branch \<Rightarrow> Node option"
  and SearchNodes_branch_loop :: "ClickSearch \<Rightarrow> branch \<Rightarrow> nat \<Rightarrow> Node option" where
  "SearchNodes_branch cs currBranch =
     (if PointIsInsideSquare_branch cs currBranch
      then SearchNodes_branch_loop cs currBranch 0 else None)"
| "SearchNodes_branch_loop cs currBranch i =
     (if i < 4 then
        (case (case at4 (branches currBranch) i of
                 None \<Rightarrow> None | Some b \<Rightarrow> SearchNodes_branch cs b) of
           Some result \<Rightarrow> Some result
         | None \<Rightarrow>
             (case (case at4 (leaves currBranch) i of
                      None \<Rightarrow> None | Some l \<Rightarrow> SearchNodes_leaf cs l) of
                Some result \<Rightarrow> Some result
              | None \<Rightarrow> SearchNodes_branch_loop cs currBranch (i + 1)))
      else None)"
  by pat_completeness auto
termination
proof (relation "measure (\<lambda>v. case v of
            Inl (cs, b) \<Rightarrow> 5 * size b + 5
          | Inr (cs, b, i) \<Rightarrow> 5 * size b + (4 - i))", goal_cases)
  case (3 cs currBranch i b)
  have smaller: "size c < size_array4 (size_option size) a" if "at4 a k = Some c"
    for a :: "branch option array4" and k c
    using that by (cases a) (auto split: if_splits)
  from 3 show ?case
    by (cases currBranch) (auto dest: smaller)
qed simp_all

function SearchElements_branch :: "ClickSearch \<Rightarrow> branch \<Rightarrow> Element option"
  and SearchElements_branch_loop :: "ClickSearch \<Rightarrow> branch \<Rightarrow> nat \<Rightarrow> Element option" where
  "SearchElements_branch cs currBranch =
     (if PointIsInsideSquare_branch cs currBranch
      then SearchElements_branch_loop cs currBranch 0 else None)"
| "SearchElements_branch_loop cs currBranch i =
     (if i < 4 then
        (case (case at4 (branches currBranch) i of
                 None \<Rightarrow> None | Some b \<Rightarrow> SearchElements_branch cs b) of
           Some result \<Rightarrow> Some result
         | None \<Rightarrow>
             (case (case at4 (leaves currBranch) i of
                      None \<Rightarrow> None | Some l \<Rightarrow> SearchElements_leaf cs l) of
                Some result \<Rightarrow> Some result
              | None \<Rightarrow> SearchElements_branch_loop cs currBranch (i + 1)))
      else None)"
  by pat_completeness auto
termination
proof (relation "measure (\<lambda>v. case v of
            Inl (cs, b) \<Rightarrow> 5 * size b + 5
          | Inr (cs, b, i) \<Rightarrow> 5 * size b + (4 - i))", goal_cases)
  case (3 cs currBranch i b)
  have smaller: "size c < size_array4 (size_option size) a" if "at4 a k = Some c"
    for a :: "branch option array4" and k c
    using that by (cases a) (auto split: if_splits)
  from 3 show ?case
    by (cases currBranch) (auto dest: smaller)
qed simp_all

declare SearchNodes_branch.simps [simp del]
declare SearchNodes_branch_loop.simps [simp del]
declare SearchElements_branch.simps [simp del]
declare SearchElements_branch_loop.simps [simp del]

text \<open>
  The leaves the descent from a branch reaches for the query point: those in a slot of
  a branch whose bounds contain the point, every branch on the way containing it too.
  \<open>slot_reaches\<close> is the same for the leaves reached through one slot.
\<close>

inductive descent_reaches :: "ClickSearch \<Rightarrow> branch \<Rightarrow> leaf \<Rightarrow> bool" where
  reach_leaf: "PointIsInsideSquare_branch cs b \<Longrightarrow> i < 4 \<Longrightarrow> at4 (leaves b) i = Some l
     \<Longrightarrow> PointIsInsideSquare_leaf cs l \<Longrightarrow> descent_reaches cs b l"
| reach_branch: "PointIsInsideSquare_branch cs b \<Longrightarrow> i < 4 \<Longrightarrow> at4 (branches b) i = Some b'
     \<Longrightarrow> descent_reaches cs b' l \<Longrightarrow> descent_reaches cs b l"

definition slot_reaches :: "ClickSearch \<Rightarrow> branch \<Rightarrow> nat \<Rightarrow> leaf \<Rightarrow> bool" where
  "slot_reaches cs b j l =
     ((at4 (leaves b) j = Some l \<and> PointIsInsideSquare_leaf cs l)
      \<or> (\<exists>b'. at4 (branches b) j = Some b' \<and> descent_reaches cs b' l))"

definition FindNode :: "ClickSearch \<Rightarrow> branch \<Rightarrow> real \<Rightarrow> real \<Rightarrow> Node option \<times> ClickSearch" where
  "FindNode cs rootBranch qx qy =
     (let cs' = cs\<lparr>x := qx, y := qy\<rparr> in (SearchNodes_branch cs' rootBranch, cs'))"

definition FindElement :: "ClickSearch \<Rightarrow> branch \<Rightarrow> real \<Rightarrow> real \<Rightarrow> Element option \<times> ClickSearch" where
  "FindElement cs rootBranch qx qy =
     (let cs' = cs\<lparr>x := qx, y := qy\<rparr> in (SearchElements_branch cs' rootBranch, cs'))"


section \<open>The barycentric test as specified\<close>

text \<open>
  The barycentric weights of a point \<open>(qx, qy)\<close> in the triangle of an element, from
  the standard 2x2 linear solve: \<open>a\<close>, \<open>b\<close> and \<open>c = 1 - a - b\<close> with
  \<open>a p1 + b p2 + c p3 = q\<close>. The point is inside when all three are positive. The
  vertices are collinear when the determinant of the solve is zero.
\<close>

definition collinear_vertices :: "Element \<Rightarrow> bool" where
  "collinear_vertices e =
     ((normY (n2 e) - normY (n3 e)) * (normX (n1 e) - normX (n3 e))
      + (normX (n3 e) - normX (n2 e)) * (normY (n1 e) - normY (n3 e)) = 0)"

definition spec_barycentric :: "real \<Rightarrow> real \<Rightarrow> Element \<Rightarrow> real \<times> real \<times> real" where
  "spec_barycentric qx qy e =
     (let p1 = n1 e; p2 = n2 e; p3 = n3 e;
          det = (normY p2 - normY p3) * (normX p1 - normX p3)
                + (normX p3 - normX p2) * (normY p1 - normY p3);
          a = ((normY p2 - normY p3) * (qx - normX p3)
               + (normX p3 - normX p2) * (qy - normY p3)) / det;
          b = ((normY p3 - normY p1) * (qx - normX p3)
               + (normX p1 - normX p3) * (qy - normY p3)) / det
      in (a, b, 1 - a - b))"

definition spec_PointIsInsideElement :: "real \<Rightarrow> real \<Rightarrow> Element \<Rightarrow> bool" where
  "spec_PointIsInsideElement qx qy e =
     (case spec_barycentric qx qy e of (a, b, c) \<Rightarrow> a > 0 \<and> b > 0 \<and> c > 0)"


section \<open>An example tree\<close>

text \<open>
  A root cell over \<open>[-1, 1] \<times> [-1, 1]\<close> with its four quadrants as leaves. The
  top-right leaf holds three nodes on the line \<open>normY = 1/4\<close> and one triangle; the
  other leaves are empty. Every coordinate is a dyadic fraction.
\<close>

definition exNodeA :: Node where
  "exNodeA = \<lparr>nodeNumber = 1, normX = 1, normY = 1/4\<rparr>"

definition exNodeB :: Node where
  "exNodeB = \<lparr>nodeNumber = 2, normX = 1/4, normY = 1/4\<rparr>"

definition exNodeC :: Node where
  "exNodeC = \<lparr>nodeNumber = 3, normX = 3/4, normY = 1/4\<rparr>"

definition exElement :: Element where
  "exElement = \<lparr>elementNumber = 1,
       n1 = \<lparr>nodeNumber = 4, normX = 0, normY = 0\<rparr>,
       n2 = \<lparr>nodeNumber = 5, normX = 1/2, normY = 0\<rparr>,
       n3 = \<lparr>nodeNumber = 6, normX = 1/4, normY = 1/2\<rparr>\<rparr>"

definition exLeaf :: leaf where
  "exLeaf = \<lparr>leaf.bounds = Array4 0 1 0 1,
              nodes = [exNodeA, exNodeB, exNodeC], elements = [exElement]\<rparr>"

definition exTree :: branch where
  "exTree = Branch (Array4 (-1) 1 (-1) 1) (Array4 None None None None)
     (Array4 (Some \<lparr>leaf.bounds = Array4 (-1) 0 (-1) 0, nodes = [], elements = []\<rparr>)
             (Some \<lparr>leaf.bounds = Array4 0 1 (-1) 0, nodes = [], elements = []\<rparr>)
             (Some \<lparr>leaf.bounds = Array4 (-1) 0 0 1, nodes = [], elements = []\<rparr>)
             (Some exLeaf))"


section \<open>Properties of Edge\<close>

lemma Edge_ctor_fields:
  "Edge.n1 (Edge_ctor a b) = min a b" "Edge.n2 (Edge_ctor a b) = max a b"
  by (auto simp: Edge_ctor_def min_def max_def)

lemma Edge_same_key_iff_eq: "Edge_same_key e e1 = Edge_eq e e1"
  by (auto simp: Edge_same_key_def Edge_less_def Edge_eq_def)

lemma min_max_pair_iff:
  fixes a b c d :: "'a::linorder"
  shows "(min a b = min c d \<and> max a b = max c d) = ({a, b} = {c, d})"
  by (auto simp: min_def max_def doubleton_eq_iff split: if_splits)

text \<open>
  C4. For all node IDs \<open>a\<close>, \<open>b\<close>, \<open>c\<close>, \<open>d\<close>: the constructed edge stores the smaller ID
  in \<open>n1\<close> and the larger in \<open>n2\<close>; \<open>Edge(a,b) == Edge(b,a)\<close>; two constructed edges
  are \<open>==\<close> exactly when their unordered ID pairs coincide; and exactly then they are
  one key under \<open>operator<\<close> (neither is less than the other).
\<close>

theorem Edge_canonical_unordered_pair:
  "Edge.n1 (Edge_ctor a b) = min a b
   \<and> Edge.n2 (Edge_ctor a b) = max a b
   \<and> Edge_eq (Edge_ctor a b) (Edge_ctor b a)
   \<and> Edge_eq (Edge_ctor a b) (Edge_ctor c d) = ({a, b} = {c, d})
   \<and> Edge_same_key (Edge_ctor a b) (Edge_ctor c d) = ({a, b} = {c, d})
   \<and> Edge_same_key (Edge_ctor a b) (Edge_ctor b a)"
proof -
  have eq: "Edge_eq (Edge_ctor a b) (Edge_ctor c d) = ({a, b} = {c, d})" for a b c d
    by (simp add: Edge_eq_def Edge_ctor_fields min_max_pair_iff)
  have swap: "Edge_eq (Edge_ctor a b) (Edge_ctor b a)"
    by (simp add: eq insert_commute)
  show ?thesis
    by (simp add: Edge_ctor_fields eq swap Edge_same_key_iff_eq insert_commute)
qed


section \<open>Properties of the click search\<close>

subsection \<open>The scan of a leaf\<close>

lemma SearchNodes_leaf_loop_mem:
  "SearchNodes_leaf_loop cs ns st cur rd = Some n \<Longrightarrow> n \<in> set ns \<or> cur = Some n"
  by (induction ns arbitrary: st cur rd) (auto split: if_splits)

lemma SearchNodes_leaf_loop_started:
  "cur \<noteq> None \<Longrightarrow> SearchNodes_leaf_loop cs ns True cur rd \<noteq> None"
  by (induction ns arbitrary: cur rd) auto

lemma SearchNodes_leaf_None_iff:
  "SearchNodes_leaf cs l = None \<longleftrightarrow> (PointIsInsideSquare_leaf cs l \<longrightarrow> nodes l = [])"
  by (cases "nodes l") (auto simp: SearchNodes_leaf_def SearchNodes_leaf_loop_started)

lemma SearchNodes_leaf_Some:
  "SearchNodes_leaf cs l = Some n \<Longrightarrow> PointIsInsideSquare_leaf cs l \<and> n \<in> set (nodes l)"
  by (auto simp: SearchNodes_leaf_def split: if_splits dest: SearchNodes_leaf_loop_mem)

lemma SearchElements_leaf_loop_Some:
  "SearchElements_leaf_loop cs es = Some e \<Longrightarrow> e \<in> set es \<and> PointIsInsideElement cs e"
  by (induction es) (auto split: if_splits)

lemma SearchElements_leaf_Some:
  "SearchElements_leaf cs l = Some e \<Longrightarrow>
     PointIsInsideSquare_leaf cs l \<and> e \<in> set (elements l) \<and> PointIsInsideElement cs e"
  by (auto simp: SearchElements_leaf_def split: if_splits dest: SearchElements_leaf_loop_Some)

subsection \<open>The descent\<close>

lemma descent_reaches_leaf_in:
  "descent_reaches cs b l \<Longrightarrow> leaf_in l b \<and> PointIsInsideSquare_leaf cs l"
  by (induction rule: descent_reaches.induct) (auto intro: leaf_in.intros)

lemma descent_reaches_slots:
  "descent_reaches cs b l \<longleftrightarrow>
     (PointIsInsideSquare_branch cs b \<and> (\<exists>j<4. slot_reaches cs b j l))"
  unfolding slot_reaches_def
  by (subst descent_reaches.simps) blast

lemma all_from_split:
  fixes i n :: nat
  assumes "i < n"
  shows "(\<forall>j. i \<le> j \<and> j < n \<longrightarrow> P j) = (P i \<and> (\<forall>j. i + 1 \<le> j \<and> j < n \<longrightarrow> P j))"
proof
  assume "\<forall>j. i \<le> j \<and> j < n \<longrightarrow> P j"
  with assms show "P i \<and> (\<forall>j. i + 1 \<le> j \<and> j < n \<longrightarrow> P j)" by simp
next
  assume r: "P i \<and> (\<forall>j. i + 1 \<le> j \<and> j < n \<longrightarrow> P j)"
  show "\<forall>j. i \<le> j \<and> j < n \<longrightarrow> P j"
  proof (intro allI impI)
    fix j assume "i \<le> j \<and> j < n"
    then consider "j = i" | "i + 1 \<le> j \<and> j < n" by linarith
    then show "P j" using r by cases blast+
  qed
qed

text \<open>
  The node search of a branch returns null exactly when every leaf the descent reaches
  is empty; the statement for the loop speaks of the slots from \<open>i\<close> on.
\<close>

lemma SearchNodes_None_iff:
  "(SearchNodes_branch cs b = None) = (\<forall>l. descent_reaches cs b l \<longrightarrow> nodes l = [])"
  "(SearchNodes_branch_loop cs b i = None) =
     (\<forall>j l. i \<le> j \<and> j < 4 \<and> slot_reaches cs b j l \<longrightarrow> nodes l = [])"
proof (induction cs b and cs b i rule: SearchNodes_branch_SearchNodes_branch_loop.induct)
  case (1 cs currBranch)
  show ?case
  proof (cases "PointIsInsideSquare_branch cs currBranch")
    case True
    with 1 show ?thesis
      by (simp add: SearchNodes_branch.simps descent_reaches_slots) blast
  next
    case False
    then show ?thesis
      by (simp add: SearchNodes_branch.simps descent_reaches_slots)
  qed
next
  case (2 cs currBranch i)
  show ?case
  proof (cases "i < 4")
    case False
    then show ?thesis by (auto simp: SearchNodes_branch_loop.simps)
  next
    case True
    have split: "(\<forall>j l. i \<le> j \<and> j < 4 \<and> slot_reaches cs currBranch j l \<longrightarrow> nodes l = [])
        = ((\<forall>l. slot_reaches cs currBranch i l \<longrightarrow> nodes l = [])
           \<and> (\<forall>j l. i + 1 \<le> j \<and> j < 4 \<and> slot_reaches cs currBranch j l \<longrightarrow> nodes l = []))"
      using all_from_split [OF True,
          of "\<lambda>j. \<forall>l. slot_reaches cs currBranch j l \<longrightarrow> nodes l = []"]
      by simp blast
    define br where "br = (case at4 (branches currBranch) i of
                 None \<Rightarrow> None | Some b \<Rightarrow> SearchNodes_branch cs b)"
    define lf where "lf = (case at4 (leaves currBranch) i of
                      None \<Rightarrow> None | Some l \<Rightarrow> SearchNodes_leaf cs l)"
    have unfold: "SearchNodes_branch_loop cs currBranch i =
        (case br of Some result \<Rightarrow> Some result
         | None \<Rightarrow> (case lf of Some result \<Rightarrow> Some result
              | None \<Rightarrow> SearchNodes_branch_loop cs currBranch (i + 1)))"
      unfolding br_def lf_def using True by (subst SearchNodes_branch_loop.simps) simp
    have br: "(br = None) = (\<forall>b' l. at4 (branches currBranch) i = Some b'
                 \<and> descent_reaches cs b' l \<longrightarrow> nodes l = [])"
      using 2(1)[OF True] by (auto simp: br_def split: option.splits)
    have lf: "(lf = None) = (\<forall>l. at4 (leaves currBranch) i = Some l
                 \<and> PointIsInsideSquare_leaf cs l \<longrightarrow> nodes l = [])"
      by (auto simp: lf_def SearchNodes_leaf_None_iff split: option.splits)
    have slot: "(\<forall>l. slot_reaches cs currBranch i l \<longrightarrow> nodes l = [])
                = (br = None \<and> lf = None)"
      unfolding br lf slot_reaches_def by blast
    show ?thesis
    proof (cases "br = None \<and> lf = None")
      case False
      then show ?thesis
        unfolding split slot unfold by (auto split: option.splits)
    next
      case both: True
      with 2(2)[OF True] show ?thesis
        unfolding split slot unfold by (simp add: br_def lf_def)
    qed
  qed
qed

text \<open>
  An element the search of a branch returns passes the containment test and lies in a
  leaf the descent reaches.
\<close>

lemma SearchElements_Some:
  "SearchElements_branch cs b = Some e \<Longrightarrow>
     PointIsInsideElement cs e \<and> (\<exists>l. descent_reaches cs b l \<and> e \<in> set (elements l))"
  "SearchElements_branch_loop cs b i = Some e \<Longrightarrow>
     PointIsInsideElement cs e
     \<and> (\<exists>j l. j < 4 \<and> slot_reaches cs b j l \<and> e \<in> set (elements l))"
proof (induction cs b and cs b i arbitrary: e and e
    rule: SearchElements_branch_SearchElements_branch_loop.induct)
  case (1 cs currBranch)
  from 1(2) have inside: "PointIsInsideSquare_branch cs currBranch"
    and loop: "SearchElements_branch_loop cs currBranch 0 = Some e"
    by (auto simp: SearchElements_branch.simps split: if_splits)
  from 1(1)[OF inside loop] inside show ?case
    by (auto simp: descent_reaches_slots)
next
  case (2 cs currBranch i)
  from 2(3) have lt: "i < 4"
    by (subst (asm) SearchElements_branch_loop.simps) (auto split: if_splits)
  define br where "br = (case at4 (branches currBranch) i of
                 None \<Rightarrow> None | Some b \<Rightarrow> SearchElements_branch cs b)"
  define lf where "lf = (case at4 (leaves currBranch) i of
                      None \<Rightarrow> None | Some l \<Rightarrow> SearchElements_leaf cs l)"
  have unfold: "SearchElements_branch_loop cs currBranch i =
        (case br of Some result \<Rightarrow> Some result
         | None \<Rightarrow> (case lf of Some result \<Rightarrow> Some result
              | None \<Rightarrow> SearchElements_branch_loop cs currBranch (i + 1)))"
    unfolding br_def lf_def using lt by (subst SearchElements_branch_loop.simps) simp
  consider (a) "br = Some e" | (b) "br = None" "lf = Some e"
    | (c) "br = None" "lf = None" "SearchElements_branch_loop cs currBranch (i + 1) = Some e"
    using 2(3) unfolding unfold by (auto split: option.splits)
  then show ?case
  proof cases
    case a
    then obtain b' where b': "at4 (branches currBranch) i = Some b'"
      and r: "SearchElements_branch cs b' = Some e"
      by (auto simp: br_def split: option.splits)
    from 2(1)[OF lt b' r] lt b' show ?thesis
      by (auto simp: slot_reaches_def)
  next
    case b
    then obtain l where l: "at4 (leaves currBranch) i = Some l"
      and r: "SearchElements_leaf cs l = Some e"
      by (auto simp: lf_def split: option.splits)
    from SearchElements_leaf_Some[OF r] lt l show ?thesis
      by (auto simp: slot_reaches_def)
  next
    case c
    from 2(2)[OF lt c(1)[unfolded br_def] c(2)[unfolded lf_def] c(3)] show ?thesis .
  qed
qed

subsection \<open>The barycentric weights\<close>

lemma barycentric_solve_real:
  fixes x1 y1 x2 y2 x3 y3 qx qy :: real
  defines "D \<equiv> (y2 - y3) * (x1 - x3) + (x3 - x2) * (y1 - y3)"
  defines "A \<equiv> (y2 - y3) * (qx - x3) + (x3 - x2) * (qy - y3)"
  defines "B \<equiv> (y3 - y1) * (qx - x3) + (x1 - x3) * (qy - y3)"
  assumes "D \<noteq> 0"
  shows "A / D * x1 + B / D * x2 + (1 - A / D - B / D) * x3 = qx"
    and "A / D * y1 + B / D * y2 + (1 - A / D - B / D) * y3 = qy"
proof -
  have ex: "A * (x1 - x3) + B * (x2 - x3) = (qx - x3) * D"
    and ey: "A * (y1 - y3) + B * (y2 - y3) = (qy - y3) * D"
    by (simp_all add: A_def B_def D_def algebra_simps)
  have "A / D * x1 + B / D * x2 + (1 - A / D - B / D) * x3
        = (A * (x1 - x3) + B * (x2 - x3)) / D + x3"
    by (simp add: algebra_simps add_divide_distrib diff_divide_distrib)
  also have "\<dots> = qx" using \<open>D \<noteq> 0\<close> by (simp add: ex)
  finally show "A / D * x1 + B / D * x2 + (1 - A / D - B / D) * x3 = qx" .
  have "A / D * y1 + B / D * y2 + (1 - A / D - B / D) * y3
        = (A * (y1 - y3) + B * (y2 - y3)) / D + y3"
    by (simp add: algebra_simps add_divide_distrib diff_divide_distrib)
  also have "\<dots> = qy" using \<open>D \<noteq> 0\<close> by (simp add: ey)
  finally show "A / D * y1 + B / D * y2 + (1 - A / D - B / D) * y3 = qy" .
qed

text \<open>
  The weights of \<open>spec_barycentric\<close> are the barycentric coordinates: they sum to one
  and combine the three vertices to the query point.
\<close>

lemma spec_barycentric_solves:
  assumes "\<not> collinear_vertices e" and "spec_barycentric qx qy e = (a, b, c)"
  shows "a * normX (n1 e) + b * normX (n2 e) + c * normX (n3 e) = qx"
    and "a * normY (n1 e) + b * normY (n2 e) + c * normY (n3 e) = qy"
    and "a + b + c = 1"
  using assms barycentric_solve_real [of "normY (n2 e)" "normY (n3 e)" "normX (n1 e)"
      "normX (n3 e)" "normX (n2 e)" "normY (n1 e)" qx qy]
  unfolding collinear_vertices_def spec_barycentric_def Let_def
  by auto

text \<open>
  \<open>PointIsInsideElement\<close> computes \<open>b\<close> with \<^verbatim>\<open>y - p3->normX\<close> where the solve has
  \<^verbatim>\<open>y - p3->normY\<close>. The two agree for an element whose third vertex has equal
  coordinates or whose first and third vertices have the same \<open>normX\<close>.
\<close>

lemma PointIsInsideElement_agrees:
  assumes "normX (n3 e) = normY (n3 e) \<or> normX (n1 e) = normX (n3 e)"
  shows "PointIsInsideElement \<lparr>x = qx, y = qy\<rparr> e = spec_PointIsInsideElement qx qy e"
  using assms
  by (auto simp: PointIsInsideElement_def spec_PointIsInsideElement_def spec_barycentric_def
        Let_def)

subsection \<open>Evaluating the search on the example tree\<close>

lemmas ex_defs = exNodeA_def exNodeB_def exNodeC_def exElement_def exLeaf_def exTree_def

lemmas search_simps = FindNode_def FindElement_def
  SearchNodes_branch.simps SearchNodes_branch_loop.simps
  SearchElements_branch.simps SearchElements_branch_loop.simps
  SearchNodes_leaf_def SearchElements_leaf_def
  PointIsInsideSquare_branch_def PointIsInsideSquare_leaf_def

lemma ex_reached_empty:
  "\<not> (\<exists>l. descent_reaches (ClickSearch_ctor\<lparr>x := - (1/2), y := - (1/2)\<rparr>) exTree l
          \<and> nodes l \<noteq> [])"
proof
  assume "\<exists>l. descent_reaches (ClickSearch_ctor\<lparr>x := - (1/2), y := - (1/2)\<rparr>) exTree l
             \<and> nodes l \<noteq> []"
  then obtain l
    where r: "descent_reaches (ClickSearch_ctor\<lparr>x := - (1/2), y := - (1/2)\<rparr>) exTree l"
      and n: "nodes l \<noteq> []" by blast
  from r show False
  proof (cases rule: descent_reaches.cases)
    case (reach_leaf i)
    with n show False
      by (auto simp: exTree_def exLeaf_def PointIsInsideSquare_leaf_def split: if_splits)
  next
    case (reach_branch i b')
    then show False
      by (simp add: exTree_def split: if_splits)
  qed
qed

lemma ex_leaf_reached:
  "descent_reaches \<lparr>x = 1/4, y = 1/4\<rparr> exTree exLeaf"
  by (rule descent_reaches.reach_leaf [of _ _ 3])
     (simp_all add: exTree_def exLeaf_def PointIsInsideSquare_branch_def
        PointIsInsideSquare_leaf_def)

subsection \<open>The claims about the click search\<close>

text \<open>
  C1. The nearest-node query is to return, for a point inside a non-empty leaf, a node
  of that leaf at minimal distance, and the stored node itself when the point is the
  position of a stored node. On the example tree the query at \<open>(1/4, 1/4)\<close>, the
  position of node B, reaches the leaf holding A, B and C in this order and returns C,
  at distance \<open>1/2\<close>, although B is at distance \<open>0\<close>: the scan compares every node
  with the distance of the first node, which is never replaced.
\<close>

theorem FindNode_returns_farther_node:
  "fst (FindNode ClickSearch_ctor exTree (1/4) (1/4)) = Some exNodeC
   \<and> PointIsInsideSquare_leaf \<lparr>x = 1/4, y = 1/4\<rparr> exLeaf
   \<and> nodes exLeaf = [exNodeA, exNodeB, exNodeC]
   \<and> normX exNodeB = 1/4 \<and> normY exNodeB = 1/4
   \<and> Distance \<lparr>x = 1/4, y = 1/4\<rparr> exNodeB = 0
   \<and> Distance \<lparr>x = 1/4, y = 1/4\<rparr> exNodeC = 1/2
   \<and> Distance \<lparr>x = 1/4, y = 1/4\<rparr> exNodeA = 3/4"
proof -
  have sq: "sqrt (1/4) = 1/2" "sqrt (9/16) = 3/4"
    by (simp_all add: real_sqrt_divide)
  have "fst (FindNode ClickSearch_ctor exTree (1/4) (1/4)) = Some exNodeC"
    by (simp add: search_simps ex_defs ClickSearch_ctor_def Distance_def)
  moreover have "PointIsInsideSquare_leaf \<lparr>x = 1/4, y = 1/4\<rparr> exLeaf"
    by (simp add: PointIsInsideSquare_leaf_def exLeaf_def)
  moreover have "Distance \<lparr>x = 1/4, y = 1/4\<rparr> exNodeB = 0"
    "Distance \<lparr>x = 1/4, y = 1/4\<rparr> exNodeC = 1/2"
    "Distance \<lparr>x = 1/4, y = 1/4\<rparr> exNodeA = 3/4"
    by (simp_all add: Distance_def ex_defs power2_eq_square sq)
  ultimately show ?thesis
    by (simp add: exLeaf_def exNodeB_def)
qed

text \<open>
  C2. The point-in-element test is to hold exactly when the three barycentric weights
  of the standard solve are positive. For the example triangle with vertices
  \<open>(0, 0)\<close>, \<open>(1/2, 0)\<close>, \<open>(1/4, 1/2)\<close>, which are not collinear, the point
  \<open>(1/8, 1/8)\<close> has positive weights but fails the test of the code, and the point
  \<open>(1/4, -1/16)\<close> has a negative weight but passes it.
\<close>

theorem PointIsInsideElement_differs_from_barycentric:
  "\<not> collinear_vertices exElement
   \<and> spec_barycentric (1/8) (1/8) exElement = (5/8, 1/8, 1/4)
   \<and> spec_PointIsInsideElement (1/8) (1/8) exElement
   \<and> \<not> PointIsInsideElement \<lparr>x = 1/8, y = 1/8\<rparr> exElement
   \<and> \<not> spec_PointIsInsideElement (1/4) (- (1/16)) exElement
   \<and> PointIsInsideElement \<lparr>x = 1/4, y = - (1/16)\<rparr> exElement"
  by (simp add: PointIsInsideElement_def spec_PointIsInsideElement_def spec_barycentric_def
        collinear_vertices_def exElement_def Let_def)

text \<open>
  C3, as the code has it. The click search never fails and yields null where nothing is
  to be found: for a point outside the bounds of the root, \<open>FindNode\<close> and
  \<open>FindElement\<close> return null; \<open>FindNode\<close> returns null exactly when every leaf
  the descent reaches for the point holds no nodes (the bounds are inclusive, so a point
  on a shared border reaches more than one leaf, and the search goes on to the next slot
  after a leaf that gave null); and the scan of a single leaf without nodes returns
  null. Both searches are total functions: there is no other outcome than a result or
  null.
\<close>

theorem click_search_null_results:
  "(\<not> PointIsInsideSquare_branch (cs\<lparr>x := qx, y := qy\<rparr>) rootBranch \<longrightarrow>
      fst (FindNode cs rootBranch qx qy) = None
      \<and> fst (FindElement cs rootBranch qx qy) = None)
   \<and> ((fst (FindNode cs rootBranch qx qy) = None) =
        (\<forall>l. descent_reaches (cs\<lparr>x := qx, y := qy\<rparr>) rootBranch l \<longrightarrow> nodes l = []))
   \<and> (nodes l = [] \<longrightarrow> SearchNodes_leaf (cs\<lparr>x := qx, y := qy\<rparr>) l = None)"
proof (intro conjI impI)
  assume "\<not> PointIsInsideSquare_branch (cs\<lparr>x := qx, y := qy\<rparr>) rootBranch"
  then show "fst (FindNode cs rootBranch qx qy) = None"
    and "fst (FindElement cs rootBranch qx qy) = None"
    by (simp_all add: FindNode_def FindElement_def Let_def
          SearchNodes_branch.simps SearchElements_branch.simps)
next
  show "(fst (FindNode cs rootBranch qx qy) = None) =
        (\<forall>l. descent_reaches (cs\<lparr>x := qx, y := qy\<rparr>) rootBranch l \<longrightarrow> nodes l = [])"
    by (simp add: FindNode_def Let_def SearchNodes_None_iff(1))
next
  assume "nodes l = []"
  then show "SearchNodes_leaf (cs\<lparr>x := qx, y := qy\<rparr>) l = None"
    by (simp add: SearchNodes_leaf_None_iff)
qed

theorem click_search_null_results_witness:
  "\<not> PointIsInsideSquare_branch (ClickSearch_ctor\<lparr>x := 2, y := 0\<rparr>) exTree
   \<and> fst (FindNode ClickSearch_ctor exTree 2 0) = None
   \<and> fst (FindElement ClickSearch_ctor exTree 2 0) = None
   \<and> \<not> (\<exists>l. descent_reaches (ClickSearch_ctor\<lparr>x := - (1/2), y := - (1/2)\<rparr>) exTree l
            \<and> nodes l \<noteq> [])
   \<and> fst (FindNode ClickSearch_ctor exTree (- (1/2)) (- (1/2))) = None"
proof -
  have out: "\<not> PointIsInsideSquare_branch (ClickSearch_ctor\<lparr>x := 2, y := 0\<rparr>) exTree"
    by (simp add: PointIsInsideSquare_branch_def exTree_def ClickSearch_ctor_def)
  show ?thesis
    using click_search_null_results
            [where cs = ClickSearch_ctor and qx = 2 and qy = 0 and rootBranch = exTree]
      click_search_null_results
            [where cs = ClickSearch_ctor and qx = "- (1/2)" and qy = "- (1/2)"
               and rootBranch = exTree]
      out ex_reached_empty
    by simp
qed

text \<open>
  C3 as stated, with null whenever the leaf reached by the descent holds no nodes, fails
  on the border of two leaves. On the example tree the point \<open>(0, 0)\<close> lies in the
  bounds of all four leaves; the descent reaches the empty bottom-left leaf first, whose
  scan gives null, goes on, and \<open>FindNode\<close> returns node C of the top-right leaf.
\<close>

theorem click_search_empty_leaf_counterexample:
  "descent_reaches \<lparr>x = 0, y = 0\<rparr> exTree
       \<lparr>leaf.bounds = Array4 (-1) 0 (-1) 0, nodes = [], elements = []\<rparr>
   \<and> nodes \<lparr>leaf.bounds = Array4 (-1) 0 (-1) 0, nodes = [], elements = []\<rparr> = []
   \<and> SearchNodes_leaf \<lparr>x = 0, y = 0\<rparr>
         \<lparr>leaf.bounds = Array4 (-1) 0 (-1) 0, nodes = [], elements = []\<rparr> = None
   \<and> fst (FindNode ClickSearch_ctor exTree 0 0) = Some exNodeC"
proof -
  have reached: "descent_reaches \<lparr>x = 0, y = 0\<rparr> exTree
       \<lparr>leaf.bounds = Array4 (-1) 0 (-1) 0, nodes = [], elements = []\<rparr>"
    by (rule descent_reaches.reach_leaf [of _ _ 0])
       (simp_all add: exTree_def PointIsInsideSquare_branch_def PointIsInsideSquare_leaf_def)
  have found: "fst (FindNode ClickSearch_ctor exTree 0 0) = Some exNodeC"
    by (simp add: search_simps ex_defs ClickSearch_ctor_def Distance_def power2_eq_square)
  show ?thesis
    using reached found by (simp add: SearchNodes_leaf_def)
qed

text \<open>
  C5. When \<open>FindElement\<close> returns an element for the click point, the element passes
  the point-in-element test of the search for that point, and it is stored in a leaf of
  the tree whose bounds contain the point, one the descent reaches. Otherwise the result
  is null.
\<close>

theorem FindElement_result_contained:
  assumes "fst (FindElement cs rootBranch qx qy) = Some e"
  shows "PointIsInsideElement (cs\<lparr>x := qx, y := qy\<rparr>) e
     \<and> (\<exists>l. leaf_in l rootBranch \<and> e \<in> set (elements l)
             \<and> PointIsInsideSquare_leaf (cs\<lparr>x := qx, y := qy\<rparr>) l
             \<and> descent_reaches (cs\<lparr>x := qx, y := qy\<rparr>) rootBranch l)"
  using SearchElements_Some(1)[of "cs\<lparr>x := qx, y := qy\<rparr>" rootBranch e] assms
  by (auto simp: FindElement_def Let_def dest: descent_reaches_leaf_in)

theorem FindElement_result_contained_witness:
  "fst (FindElement ClickSearch_ctor exTree (1/4) (1/8)) = Some exElement
   \<and> PointIsInsideElement (ClickSearch_ctor\<lparr>x := 1/4, y := 1/8\<rparr>) exElement
   \<and> (\<exists>l. leaf_in l exTree \<and> exElement \<in> set (elements l)
           \<and> PointIsInsideSquare_leaf (ClickSearch_ctor\<lparr>x := 1/4, y := 1/8\<rparr>) l)"
proof -
  have h: "fst (FindElement ClickSearch_ctor exTree (1/4) (1/8)) = Some exElement"
    by (simp add: search_simps ex_defs ClickSearch_ctor_def PointIsInsideElement_def Let_def)
  show ?thesis
    using FindElement_result_contained [OF h] h by blast
qed

text \<open>
  C6. A click search is repeatable: the same query issued again on the searcher the
  first call leaves behind returns the same result and leaves the same searcher, for
  \<open>FindNode\<close> and for \<open>FindElement\<close>; the result does not depend on the searcher's
  earlier state at all. The tree is only read by a query.
\<close>

theorem click_search_repeatable:
  "FindNode (snd (FindNode cs rootBranch qx qy)) rootBranch qx qy = FindNode cs rootBranch qx qy
   \<and> FindElement (snd (FindElement cs rootBranch qx qy)) rootBranch qx qy
       = FindElement cs rootBranch qx qy
   \<and> fst (FindNode cs' rootBranch qx qy) = fst (FindNode cs rootBranch qx qy)
   \<and> fst (FindElement cs' rootBranch qx qy) = fst (FindElement cs rootBranch qx qy)"
proof -
  have same: "cs'\<lparr>x := qx, y := qy\<rparr> = cs\<lparr>x := qx, y := qy\<rparr>" for cs cs' :: ClickSearch
    by simp
  show ?thesis
    by (simp add: FindNode_def FindElement_def Let_def same [of cs' cs])
qed


section \<open>Properties of the selection layer\<close>

lemma pop_all_Nil [simp]: "pop_all xs = []"
  by (induction xs) auto

lemma run_snoc: "run m s (es @ [e]) = step m (run m s es) e"
  by (simp add: run_def)

lemma run_Nil: "run m s [] = s"
  by (simp add: run_def)

lemmas layer_op_defs = MouseClick_def MouseMove_def MouseRelease_def UseTool_def
  Undo_def Redo_def CircleToolFinishedSearching_def ClearRedoStack_def tool_receives_def

subsection \<open>The mouse button\<close>

lemma button_held_snoc:
  "button_held h (es @ [e]) =
     (case e of MouseClickEv px py \<Rightarrow> True | MouseReleaseEv px py \<Rightarrow> False
      | _ \<Rightarrow> button_held h es)"
  by (induction h es rule: button_held.induct) (auto split: event.splits)

lemma mousePressed_step:
  "mousePressed (step m s e) =
     (case e of MouseClickEv px py \<Rightarrow> True | MouseReleaseEv px py \<Rightarrow> False
      | _ \<Rightarrow> mousePressed s)"
  by (cases e) (auto simp: layer_op_defs Let_def split: option.splits)

lemma mousePressed_run:
  "mousePressed (run m s es) = button_held (mousePressed s) es"
proof (induction es rule: rev_induct)
  case Nil
  show ?case by (simp add: run_Nil)
next
  case (snoc e es)
  then show ?case
    by (simp add: run_snoc button_held_snoc mousePressed_step split: event.splits)
qed

lemma tool_calls_step:
  "tool_calls (step m s e) =
     tool_calls s @ protocol_forwards (mousePressed s) (circle_active m s) e"
  by (cases e)
     (auto simp: layer_op_defs Let_def tool_calls_def circle_active_def CircleTool_ctor_def
        split: option.splits)

subsection \<open>The stacks hold no null pointer\<close>

lemma stacks_non_null_step:
  "stacks_non_null s \<Longrightarrow> stacks_non_null (step m s e)"
  by (cases e)
     (auto simp: layer_op_defs Let_def stacks_non_null_def
        split: option.splits dest: list.set_sel)

lemma stacks_non_null_ctor: "stacks_non_null CreationSelectionLayer_ctor"
  by (simp add: stacks_non_null_def CreationSelectionLayer_ctor_def CreateCircleTool_def)

lemma stacks_non_null_run: "stacks_non_null s \<Longrightarrow> stacks_non_null (run m s es)"
  by (induction es rule: rev_induct) (simp_all add: run_Nil run_snoc stacks_non_null_step)

lemma stacks_non_null_reachable: "reachable m s \<Longrightarrow> stacks_non_null s"
  using stacks_non_null_run [OF stacks_non_null_ctor] by (auto simp: reachable_def)

subsection \<open>Sorting and removing neighbouring duplicates\<close>

lemma distinct_remdups_adj_sorted:
  "sorted xs \<Longrightarrow> distinct (remdups_adj xs)"
  by (induction xs rule: remdups_adj.induct) auto

subsection \<open>The example layer\<close>

lemmas layer_simps = run_def layer_op_defs Let_def tool_calls_def circle_active_def
  CircleTool_ctor_def CreationSelectionLayer_ctor_def CreateCircleTool_def
  exMacros_def exLayer_def current_selection_def

lemma exLayer_reachable: "reachable exMacros exLayer"
  unfolding reachable_def exLayer_def by blast

subsection \<open>The claims about the selection layer\<close>

text \<open>
  C7. In the circle-selection interaction the radius point is updated only between a
  mouse click and the following release. After every sequence of events on a
  constructed layer, \<^verbatim>\<open>mousePressed\<close> tells whether the button is held, that is,
  whether the last click has not been followed by a release; and the next event
  hands the circle tool exactly what the protocol says: a click sets the center, a move
  forwards a radius point only while the button is held, a release finishes the circle
  (once), each while the circle tool is the active tool, and no other event reaches the
  tool.
\<close>

theorem circle_radius_only_while_held:
  "mousePressed (run m CreationSelectionLayer_ctor es) = button_held False es
   \<and> tool_calls (step m (run m CreationSelectionLayer_ctor es) e) =
       tool_calls (run m CreationSelectionLayer_ctor es)
         @ protocol_forwards (button_held False es)
             (circle_active m (run m CreationSelectionLayer_ctor es)) e"
proof -
  have "mousePressed CreationSelectionLayer_ctor = False"
    by (simp add: CreationSelectionLayer_ctor_def CreateCircleTool_def)
  then have "mousePressed (run m CreationSelectionLayer_ctor es) = button_held False es"
    using mousePressed_run [of m CreationSelectionLayer_ctor es] by simp
  then show ?thesis
    using tool_calls_step [of m "run m CreationSelectionLayer_ctor es" e] by simp
qed

theorem circle_radius_only_while_held_witness:
  "tool_calls (run exMacros CreationSelectionLayer_ctor
      [MouseMoveEv 9 9, MouseClickEv 0 0, MouseMoveEv 3 4, MouseReleaseEv 3 4,
       MouseMoveEv 5 5])
    = [SetCenter 0 0, SetRadiusPoint 3 4, CircleFinished]
   \<and> \<not> mousePressed (run exMacros CreationSelectionLayer_ctor
      [MouseMoveEv 9 9, MouseClickEv 0 0, MouseMoveEv 3 4, MouseReleaseEv 3 4])"
  using circle_radius_only_while_held
          [of exMacros "[MouseMoveEv 9 9, MouseClickEv 0 0, MouseMoveEv 3 4, MouseReleaseEv 3 4]"
              "MouseMoveEv 5 5"]
  by (simp add: layer_simps)

text \<open>
  C8. In every state a layer can reach in which \<^verbatim>\<open>selectedState\<close> is not null and
  the undo stack is not empty, \<open>Undo\<close> followed by \<open>Redo\<close> restores the selected
  state, the undo stack and the redo stack: \<open>Undo\<close> pushes the current state onto the
  redo stack and makes the top of the undo stack current, and \<open>Redo\<close> moves it back.
\<close>

theorem Undo_then_Redo_restores:
  assumes "reachable m s" and "selectedState s \<noteq> None" and "undoStack s \<noteq> []"
  shows "selectedState (Redo (Undo s)) = selectedState s
     \<and> undoStack (Redo (Undo s)) = undoStack s
     \<and> redoStack (Redo (Undo s)) = redoStack s
     \<and> redoStack (Undo s) = selectedState s # redoStack s
     \<and> selectedState (Undo s) = hd (undoStack s)
     \<and> undoStack (Undo s) = tl (undoStack s)"
proof -
  from assms(1) have "None \<notin> set (undoStack s)"
    using stacks_non_null_reachable by (auto simp: stacks_non_null_def)
  with assms(3) have "hd (undoStack s) \<noteq> None"
    by (metis list.set_sel(1))
  with assms(2,3) show ?thesis
    by (simp add: Undo_def Redo_def Let_def)
qed

theorem Undo_then_Redo_restores_witness:
  "reachable exMacros exLayer \<and> selectedState exLayer \<noteq> None \<and> undoStack exLayer \<noteq> []
   \<and> selectedState (Redo (Undo exLayer)) = Some (ElementState [30, 10])
   \<and> undoStack (Redo (Undo exLayer)) = [Some (ElementState [])]
   \<and> redoStack (Redo (Undo exLayer)) = []
   \<and> redoStack (Undo exLayer) = [Some (ElementState [30, 10])]
   \<and> selectedState (Undo exLayer) = Some (ElementState [])
   \<and> undoStack (Undo exLayer) = []"
proof -
  have h: "selectedState exLayer \<noteq> None" "undoStack exLayer \<noteq> []"
    by (simp_all add: layer_simps)
  show ?thesis
    using Undo_then_Redo_restores [OF exLayer_reachable h] exLayer_reachable
    by (simp add: layer_simps)
qed

text \<open>
  C9. When the finished circle search has found no element,
  \<open>CircleToolFinishedSearching\<close> leaves the currently selected elements, the undo
  stack and the redo stack as they were, in every state of the layer.
\<close>

theorem empty_search_changes_nothing:
  "current_selection (CircleToolFinishedSearching [] s) = current_selection s
   \<and> undoStack (CircleToolFinishedSearching [] s) = undoStack s
   \<and> redoStack (CircleToolFinishedSearching [] s) = redoStack s"
  by (simp add: CircleToolFinishedSearching_def current_selection_def Let_def)

text \<open>
  C10. When the current selection and the result of the circle search are both
  non-empty, after \<open>CircleToolFinishedSearching\<close> the current selection holds every
  element at most once, its elements are those of the previous selection together with
  the found ones, and the previous selection, unchanged, is the new top of the undo
  stack.
\<close>

theorem merged_selection_is_union:
  assumes "circleTool s \<noteq> None" and "selectedState s = Some (ElementState currList)"
    and "currList \<noteq> []" and "found \<noteq> []"
  shows "distinct (current_selection (CircleToolFinishedSearching found s))
     \<and> set (current_selection (CircleToolFinishedSearching found s))
         = set currList \<union> set found
     \<and> undoStack (CircleToolFinishedSearching found s)
         = Some (ElementState currList) # undoStack s"
  using assms
  by (auto simp: CircleToolFinishedSearching_def current_selection_def Let_def
        ClearRedoStack_def distinct_remdups_adj_sorted)

theorem merged_selection_is_union_witness:
  "circleTool exLayer \<noteq> None \<and> selectedState exLayer = Some (ElementState [30, 10])
   \<and> current_selection (CircleToolFinishedSearching [20, 10] exLayer) = [10, 20, 30]
   \<and> distinct (current_selection (CircleToolFinishedSearching [20, 10] exLayer))
   \<and> set (current_selection (CircleToolFinishedSearching [20, 10] exLayer))
       = {30, 10} \<union> {20, 10}
   \<and> undoStack (CircleToolFinishedSearching [20, 10] exLayer)
       = [Some (ElementState [30, 10]), Some (ElementState [])]"
proof -
  have h: "circleTool exLayer \<noteq> None" "selectedState exLayer = Some (ElementState [30, 10])"
    by (simp_all add: layer_simps)
  show ?thesis
    using merged_selection_is_union [OF h, of "[20, 10]"]
    by (simp add: layer_simps)
qed


end
